theory Spec2Isabelle
  imports Main
begin

section \<open>Data model of \<^verbatim>\<open>src/undo-redo-manager.ts\<close>\<close>

text \<open>
  \<^verbatim>\<open>DocumentId\<close> is a (branded) string. A scope is a \<^verbatim>\<open>string | symbol\<close>:
  the two kinds of property key of a JavaScript object, which never coincide.
\<close>

type_synonym DocumentId = string

datatype scope_key = StrKey string | SymKey nat

text \<open>
  Modelled from the spec: \<^verbatim>\<open>defaultScope\<close> is imported from
  \<^verbatim>\<open>./automerge-repo-undo-redo\<close>, which is not among the sources. The spec describes it
  as a single reserved token, distinct from every string: a symbol.
\<close>

definition defaultScope :: scope_key where
  "defaultScope = SymKey 0"

text \<open>\<^verbatim>\<open>type Change = { description: string | undefined; ids: DocumentId[] }\<close>\<close>

record Change =
  description :: "string option"
  ids :: "DocumentId list"

text \<open>The value \<^verbatim>\<open>{ ...change, scope }\<close> that the manager's operations return.\<close>

record ChangeInScope = Change +
  scope :: scope_key

definition in_scope :: "Change \<Rightarrow> scope_key \<Rightarrow> ChangeInScope" where
  "in_scope change sc = \<lparr>description = description change, ids = ids change, scope = sc\<rparr>"

text \<open>
  \<^verbatim>\<open>UndoRedoOptions<unknown> & { dependencies?: DocumentId[] }\<close>: every field is optional,
  \<open>None\<close> is \<^verbatim>\<open>undefined\<close>.
\<close>

record UndoRedoOptions =
  opt_description :: "string option"
  opt_scope :: "scope_key option"
  dependencies :: "DocumentId list option"

text \<open>
  What an operation can throw: the \<^verbatim>\<open>TypeError\<close> of the JavaScript runtime (calling
  what is not a function, reading a property of \<^verbatim>\<open>undefined\<close>), or whatever a
  per-document handle throws, which the manager neither catches nor translates.
\<close>

datatype error = TypeError | HandleError string

subsection \<open>The per-document handles\<close>

text \<open>
  The class \<^verbatim>\<open>AutomergeRepoUndoRedo\<close> is an external collaborator whose code is not among
  the sources, so its methods are a parameter of the model. A handle is a reference of type
  \<open>'h\<close>; everything outside the manager that a handle can read or change (the documents,
  the handles' own histories) is one state of type \<open>'w\<close>, threaded through every call.
  A call either returns (\<open>None\<close>, or \<open>Inr\<close> of the value returned) or throws.
  The manager's fields are \<^verbatim>\<open>#private\<close>: a handle cannot reach them, so a call changes
  \<open>'w\<close> only.
\<close>

record ('h, 'w) handle_api =
  h_documentId :: "'h \<Rightarrow> DocumentId"
  h_startTransaction :: "'h \<Rightarrow> 'w \<Rightarrow> error option \<times> 'w"
  h_endTransaction :: "'h \<Rightarrow> UndoRedoOptions \<Rightarrow> 'w \<Rightarrow> (error + bool) \<times> 'w"
  h_undo :: "'h \<Rightarrow> scope_key \<Rightarrow> 'w \<Rightarrow> error option \<times> 'w"
  h_redo :: "'h \<Rightarrow> scope_key \<Rightarrow> 'w \<Rightarrow> error option \<times> 'w"

subsection \<open>The registry: a JavaScript \<^verbatim>\<open>Map\<close>\<close>

text \<open>
  A \<^verbatim>\<open>Map\<close> iterates in insertion order, and \<^verbatim>\<open>set\<close> on a key already present
  replaces the value where it stands. An association list with that update models it.
\<close>

fun map_set :: "'k \<Rightarrow> 'v \<Rightarrow> ('k \<times> 'v) list \<Rightarrow> ('k \<times> 'v) list" where
  "map_set k v [] = [(k, v)]"
| "map_set k v ((k', v') # kvs) =
     (if k' = k then (k, v) # kvs else (k', v') # map_set k v kvs)"

definition map_get :: "('k \<times> 'v) list \<Rightarrow> 'k \<Rightarrow> 'v option" where
  "map_get kvs k = map_of kvs k"

subsection \<open>The history store: two plain objects\<close>

text \<open>
  \<^verbatim>\<open>#undoStack\<close> and \<^verbatim>\<open>#redoStack\<close> are object literals
  (\<^verbatim>\<open>{ [defaultScope]: [] }\<close>) indexed by the scope. Their own properties are a map from
  scope keys to arrays of changes. No two scopes ever share an array (each is created by a
  fresh \<^verbatim>\<open>[]\<close>), so an array is modelled by its contents, oldest entry first.
  A stored change shares its \<^verbatim>\<open>ids\<close> array with the value the operation returned; the
  model takes the caller to leave that array as it is.
\<close>

record 'h manager =
  handles :: "(DocumentId \<times> 'h) list"
  undoStack :: "scope_key \<rightharpoonup> Change list"
  redoStack :: "scope_key \<rightharpoonup> Change list"

definition new_manager :: "'h manager" where
  "new_manager = \<lparr>handles = [], undoStack = [defaultScope \<mapsto> []], redoStack = [defaultScope \<mapsto> []]\<rparr>"

text \<open>
  An object literal inherits from \<^verbatim>\<open>Object.prototype\<close>, and a property read
  \<^verbatim>\<open>obj[key]\<close> that finds no own property continues there. The table lists the string
  keys of \<^verbatim>\<open>Object.prototype\<close> (ECMAScript, with Annex B) and, for each, the
  \<^verbatim>\<open>length\<close> property of the value found: eleven functions and, for \<^verbatim>\<open>__proto__\<close>,
  \<^verbatim>\<open>Object.prototype\<close> itself, which has no \<^verbatim>\<open>length\<close>. It has no symbol keys.
\<close>

definition Object_prototype :: "(string \<times> nat option) list" where
  "Object_prototype =
     [(''constructor'', Some 1),
      (''__defineGetter__'', Some 2),
      (''__defineSetter__'', Some 2),
      (''hasOwnProperty'', Some 1),
      (''__lookupGetter__'', Some 1),
      (''__lookupSetter__'', Some 1),
      (''isPrototypeOf'', Some 1),
      (''propertyIsEnumerable'', Some 1),
      (''toString'', Some 0),
      (''valueOf'', Some 0),
      (''__proto__'', None),
      (''toLocaleString'', Some 0)]"

text \<open>
  What a read \<^verbatim>\<open>this.#undoStack[scope]\<close> can give: an array of changes, a member of
  \<^verbatim>\<open>Object.prototype\<close> (kept with its \<^verbatim>\<open>length\<close>), or \<^verbatim>\<open>undefined\<close>.
\<close>

datatype js_value = Arr "Change list" | Proto "nat option" | Undefined

definition inherited :: "scope_key \<Rightarrow> nat option option" where
  "inherited k = (case k of StrKey s \<Rightarrow> map_of Object_prototype s | SymKey n \<Rightarrow> None)"

definition js_get :: "(scope_key \<rightharpoonup> Change list) \<Rightarrow> scope_key \<Rightarrow> js_value" where
  "js_get obj k =
     (case obj k of
        Some xs \<Rightarrow> Arr xs
      | None \<Rightarrow> (case inherited k of Some len \<Rightarrow> Proto len | None \<Rightarrow> Undefined))"

text \<open>Only \<^verbatim>\<open>undefined\<close> is falsy here: arrays (empty ones too), functions and objects are truthy.\<close>

definition falsy :: "js_value \<Rightarrow> bool" where
  "falsy v = (case v of Undefined \<Rightarrow> True | Arr xs \<Rightarrow> False | Proto len \<Rightarrow> False)"

section \<open>The operations\<close>

subsection \<open>\<^verbatim>\<open>addHandle\<close>, \<^verbatim>\<open>getUndoRedoHandle\<close>\<close>

text \<open>
  \<^verbatim>\<open>addHandle\<close> first wraps a raw \<^verbatim>\<open>DocHandle\<close> into a new \<^verbatim>\<open>AutomergeRepoUndoRedo\<close>
  (the external class's constructor); the model starts from the wrapped handle.
\<close>

definition addHandle :: "('h, 'w) handle_api \<Rightarrow> 'h \<Rightarrow> 'h manager \<Rightarrow> 'h \<times> 'h manager" where
  "addHandle api undoableHandle m =
     (undoableHandle,
      m\<lparr>handles := map_set (h_documentId api undoableHandle) undoableHandle (handles m)\<rparr>)"

definition getUndoRedoHandle :: "DocumentId \<Rightarrow> 'h manager \<Rightarrow> 'h option" where
  "getUndoRedoHandle documentId m = map_get (handles m) documentId"

subsection \<open>\<^verbatim>\<open>startTransaction\<close>\<close>

text \<open>
  \<^verbatim>\<open>handles.forEach(handle => handle!.startTransaction())\<close>: in order, stopping at the
  first call that throws. \<^verbatim>\<open>handle!\<close> only silences the type checker; on
  \<^verbatim>\<open>undefined\<close> the call would be a \<^verbatim>\<open>TypeError\<close>.
\<close>

fun forEach_startTransaction ::
  "('h, 'w) handle_api \<Rightarrow> 'h option list \<Rightarrow> 'w \<Rightarrow> error option \<times> 'w" where
  "forEach_startTransaction api [] w = (None, w)"
| "forEach_startTransaction api (None # hs) w = (Some TypeError, w)"
| "forEach_startTransaction api (Some h # hs) w =
     (case h_startTransaction api h w of
        (Some e, w') \<Rightarrow> (Some e, w')
      | (None, w') \<Rightarrow> forEach_startTransaction api hs w')"

text \<open>
  \<^verbatim>\<open>dependencies ? dependencies.map(id => this.#handles.get(id)).filter(Boolean)
               : [...this.#handles.values()]\<close>.
  An array is truthy even when empty, so the first branch is taken whenever a list is given.
\<close>

definition startTransaction_handles :: "DocumentId list option \<Rightarrow> 'h manager \<Rightarrow> 'h option list" where
  "startTransaction_handles deps m =
     (case deps of
        Some ds \<Rightarrow> filter (\<lambda>h. h \<noteq> None) (map (\<lambda>i. map_get (handles m) i) ds)
      | None \<Rightarrow> map (\<lambda>(i, h). Some h) (handles m))"

definition startTransaction ::
  "('h, 'w) handle_api \<Rightarrow> DocumentId list option \<Rightarrow> 'h manager \<Rightarrow> 'w \<Rightarrow> error option \<times> 'w" where
  "startTransaction api deps m w = forEach_startTransaction api (startTransaction_handles deps m) w"

subsection \<open>\<^verbatim>\<open>getStacks\<close>\<close>

text \<open>
  Creates an own, empty array where the read is falsy, then returns what the two reads
  give. Where the scope is a key of \<^verbatim>\<open>Object.prototype\<close> and the object has no own
  property of that name, the read is truthy, nothing is created, and what is returned is
  not an array.
\<close>

definition getStacks :: "scope_key \<Rightarrow> 'h manager \<Rightarrow> (js_value \<times> js_value) \<times> 'h manager" where
  "getStacks sc m =
     (let m1 = (if falsy (js_get (undoStack m) sc)
                then m\<lparr>undoStack := (undoStack m)(sc \<mapsto> [])\<rparr> else m);
          m2 = (if falsy (js_get (redoStack m1) sc)
                then m1\<lparr>redoStack := (redoStack m1)(sc \<mapsto> [])\<rparr> else m1)
      in ((js_get (undoStack m2) sc, js_get (redoStack m2) sc), m2))"

subsection \<open>\<^verbatim>\<open>endTransaction\<close>\<close>

text \<open>
  \<^verbatim>\<open>options.dependencies
     ? options.dependencies.map(id => [id, this.#handles.get(id)]).filter(([, handle]) => handle)
     : [...this.#handles]\<close>
\<close>

definition endTransaction_handleEntries ::
  "DocumentId list option \<Rightarrow> 'h manager \<Rightarrow> (DocumentId \<times> 'h option) list" where
  "endTransaction_handleEntries deps m =
     (case deps of
        Some ds \<Rightarrow> filter (\<lambda>(i, h). h \<noteq> None) (map (\<lambda>i. (i, map_get (handles m) i)) ds)
      | None \<Rightarrow> map (\<lambda>(i, h). (i, Some h)) (handles m))"

text \<open>
  \<^verbatim>\<open>handleEntries.map(([id, handle]) => handle!.endTransaction(options) ? id : null)\<close>,
  the world threaded through the calls, in order; a call that throws ends the operation.
\<close>

fun map_endTransaction ::
  "('h, 'w) handle_api \<Rightarrow> UndoRedoOptions \<Rightarrow> (DocumentId \<times> 'h option) list \<Rightarrow> 'w
     \<Rightarrow> (error + DocumentId option list) \<times> 'w" where
  "map_endTransaction api options [] w = (Inr [], w)"
| "map_endTransaction api options ((i, None) # es) w = (Inl TypeError, w)"
| "map_endTransaction api options ((i, Some h) # es) w =
     (case h_endTransaction api h options w of
        (Inl e, w') \<Rightarrow> (Inl e, w')
      | (Inr changed, w') \<Rightarrow>
          (case map_endTransaction api options es w' of
             (Inl e, w'') \<Rightarrow> (Inl e, w'')
           | (Inr rs, w'') \<Rightarrow> (Inr ((if changed then Some i else None) # rs), w'')))"

text \<open>\<^verbatim>\<open>.filter((id): id is DocumentId => id !== null)\<close>\<close>

fun filter_not_null :: "'a option list \<Rightarrow> 'a list" where
  "filter_not_null [] = []"
| "filter_not_null (None # rs) = filter_not_null rs"
| "filter_not_null (Some i # rs) = i # filter_not_null rs"

text \<open>\<^verbatim>\<open>options.scope ?? defaultScope\<close>\<close>

definition resolve_scope :: "UndoRedoOptions \<Rightarrow> scope_key" where
  "resolve_scope options = (case opt_scope options of Some s \<Rightarrow> s | None \<Rightarrow> defaultScope)"

definition endTransaction ::
  "('h, 'w) handle_api \<Rightarrow> UndoRedoOptions \<Rightarrow> 'h manager \<Rightarrow> 'w
     \<Rightarrow> (error + ChangeInScope option) \<times> 'h manager \<times> 'w" where
  "endTransaction api options m w =
     (let sc = resolve_scope options in
      case getStacks sc m of
        ((undoStack_v, redoStack_v), m1) \<Rightarrow>
          (case map_endTransaction api options
                  (endTransaction_handleEntries (dependencies options) m1) w of
             (Inl e, w') \<Rightarrow> (Inl e, m1, w')
           | (Inr rs, w') \<Rightarrow>
               (let results = filter_not_null rs in
                if length results = 0 then (Inr None, m1, w')
                else
                  (case undoStack_v of
                     Arr us \<Rightarrow>
                       (Inr (Some \<lparr>description = opt_description options, ids = results,
                                   scope = sc\<rparr>),
                        m1\<lparr>undoStack := (undoStack m1)
                               (sc \<mapsto> us @ [\<lparr>description = opt_description options,
                                               ids = results\<rparr>]),
                            redoStack := (redoStack m1)(sc \<mapsto> [])\<rparr>,
                        w')
                   | Proto len \<Rightarrow> (Inl TypeError, m1, w')
                   | Undefined \<Rightarrow> (Inl TypeError, m1, w')))))"

subsection \<open>\<^verbatim>\<open>#transaction\<close>\<close>

text \<open>
  \<^verbatim>\<open>this.startTransaction(options.dependencies);
   const description = fn() ?? options?.description;
   return this.endTransaction({ ...options, description });\<close>
  The caller's function \<open>fn\<close> edits the documents, so it acts on the outside world; it
  returns a description or \<^verbatim>\<open>undefined\<close>, or throws.
\<close>

definition transaction ::
  "('h, 'w) handle_api \<Rightarrow> ('w \<Rightarrow> (error + string option) \<times> 'w) \<Rightarrow> UndoRedoOptions
     \<Rightarrow> 'h manager \<Rightarrow> 'w \<Rightarrow> (error + ChangeInScope option) \<times> 'h manager \<times> 'w" where
  "transaction api fn options m w =
     (case startTransaction api (dependencies options) m w of
        (Some e, w1) \<Rightarrow> (Inl e, m, w1)
      | (None, w1) \<Rightarrow>
          (case fn w1 of
             (Inl e, w2) \<Rightarrow> (Inl e, m, w2)
           | (Inr d, w2) \<Rightarrow>
               endTransaction api
                 (options\<lparr>opt_description :=
                    (case d of Some text \<Rightarrow> Some text | None \<Rightarrow> opt_description options)\<rparr>)
                 m w2))"

subsection \<open>\<^verbatim>\<open>#undo\<close>, \<^verbatim>\<open>#redo\<close>\<close>

text \<open>
  \<^verbatim>\<open>#undo(scope = defaultScope)\<close>, and likewise \<^verbatim>\<open>#redo\<close> and the four queries: a call
  without a scope is the call with \<open>defaultScope\<close>, so the model takes the scope as given.
  \<^verbatim>\<open>if (!change) return\<close> is taken on the empty array only (a change is an object).
\<close>

text \<open>\<^verbatim>\<open>Array.prototype.pop\<close>: \<open>None\<close> (\<^verbatim>\<open>undefined\<close>) on the empty array.\<close>

definition pop :: "'a list \<Rightarrow> ('a \<times> 'a list) option" where
  "pop xs = (if xs = [] then None else Some (last xs, butlast xs))"

text \<open>
  \<^verbatim>\<open>change.ids.forEach((id) => { const handle = this.#handles.get(id);
                                  if (handle) { handle.undo(scope); } })\<close>
  and the same with \<^verbatim>\<open>handle.redo(scope)\<close>; \<open>call\<close> is the method called.
\<close>

fun forEach_id ::
  "('h \<Rightarrow> 'w \<Rightarrow> error option \<times> 'w) \<Rightarrow> (DocumentId \<times> 'h) list \<Rightarrow> DocumentId list \<Rightarrow> 'w
     \<Rightarrow> error option \<times> 'w" where
  "forEach_id call hs [] w = (None, w)"
| "forEach_id call hs (i # is) w =
     (case map_get hs i of
        None \<Rightarrow> forEach_id call hs is w
      | Some h \<Rightarrow>
          (case call h w of
             (Some e, w') \<Rightarrow> (Some e, w')
           | (None, w') \<Rightarrow> forEach_id call hs is w'))"

definition undo ::
  "('h, 'w) handle_api \<Rightarrow> scope_key \<Rightarrow> 'h manager \<Rightarrow> 'w
     \<Rightarrow> (error + ChangeInScope option) \<times> 'h manager \<times> 'w" where
  "undo api sc m w =
     (case getStacks sc m of
        ((undoStack_v, redoStack_v), m1) \<Rightarrow>
          (case undoStack_v of
             Arr us \<Rightarrow>
               (case pop us of
                  None \<Rightarrow> (Inr None, m1, w)
                | Some (change, us') \<Rightarrow>
                    (let m2 = m1\<lparr>undoStack := (undoStack m1)(sc \<mapsto> us')\<rparr> in
                     case forEach_id (\<lambda>h. h_undo api h sc) (handles m2) (ids change) w of
                       (Some e, w') \<Rightarrow> (Inl e, m2, w')
                     | (None, w') \<Rightarrow>
                         (case redoStack_v of
                            Arr rs \<Rightarrow>
                              (Inr (Some (in_scope change sc)),
                               m2\<lparr>redoStack := (redoStack m2)(sc \<mapsto> rs @ [change])\<rparr>,
                               w')
                          | Proto len \<Rightarrow> (Inl TypeError, m2, w')
                          | Undefined \<Rightarrow> (Inl TypeError, m2, w'))))
           | Proto len \<Rightarrow> (Inl TypeError, m1, w)
           | Undefined \<Rightarrow> (Inl TypeError, m1, w)))"

definition redo ::
  "('h, 'w) handle_api \<Rightarrow> scope_key \<Rightarrow> 'h manager \<Rightarrow> 'w
     \<Rightarrow> (error + ChangeInScope option) \<times> 'h manager \<times> 'w" where
  "redo api sc m w =
     (case getStacks sc m of
        ((undoStack_v, redoStack_v), m1) \<Rightarrow>
          (case redoStack_v of
             Arr rs \<Rightarrow>
               (case pop rs of
                  None \<Rightarrow> (Inr None, m1, w)
                | Some (change, rs') \<Rightarrow>
                    (let m2 = m1\<lparr>redoStack := (redoStack m1)(sc \<mapsto> rs')\<rparr> in
                     case forEach_id (\<lambda>h. h_redo api h sc) (handles m2) (ids change) w of
                       (Some e, w') \<Rightarrow> (Inl e, m2, w')
                     | (None, w') \<Rightarrow>
                         (case undoStack_v of
                            Arr us \<Rightarrow>
                              (Inr (Some (in_scope change sc)),
                               m2\<lparr>undoStack := (undoStack m2)(sc \<mapsto> us @ [change])\<rparr>,
                               w')
                          | Proto len \<Rightarrow> (Inl TypeError, m2, w')
                          | Undefined \<Rightarrow> (Inl TypeError, m2, w'))))
           | Proto len \<Rightarrow> (Inl TypeError, m1, w)
           | Undefined \<Rightarrow> (Inl TypeError, m1, w)))"

subsection \<open>The queries\<close>

text \<open>
  \<^verbatim>\<open>undoStack.map((change) => change.description)\<close>: a \<^verbatim>\<open>TypeError\<close> where what
  \<^verbatim>\<open>getStacks\<close> returned has no \<^verbatim>\<open>map\<close> method.
\<close>

definition map_description :: "js_value \<Rightarrow> error + string option list" where
  "map_description v =
     (case v of
        Arr xs \<Rightarrow> Inr (map description xs)
      | Proto len \<Rightarrow> Inl TypeError
      | Undefined \<Rightarrow> Inl TypeError)"

definition undos :: "scope_key \<Rightarrow> 'h manager \<Rightarrow> (error + string option list) \<times> 'h manager" where
  "undos sc m =
     (case getStacks sc m of ((undoStack_v, redoStack_v), m1) \<Rightarrow> (map_description undoStack_v, m1))"

definition redos :: "scope_key \<Rightarrow> 'h manager \<Rightarrow> (error + string option list) \<times> 'h manager" where
  "redos sc m =
     (case getStacks sc m of ((undoStack_v, redoStack_v), m1) \<Rightarrow> (map_description redoStack_v, m1))"

text \<open>
  \<^verbatim>\<open>undoStack.length > 0\<close>. A function has a numeric \<^verbatim>\<open>length\<close> (its arity);
  \<^verbatim>\<open>undefined > 0\<close> is false; reading \<^verbatim>\<open>length\<close> of \<^verbatim>\<open>undefined\<close> throws.
\<close>

definition length_gt_0 :: "js_value \<Rightarrow> error + bool" where
  "length_gt_0 v =
     (case v of
        Arr xs \<Rightarrow> Inr (length xs > 0)
      | Proto len \<Rightarrow> (case len of Some n \<Rightarrow> Inr (n > 0) | None \<Rightarrow> Inr False)
      | Undefined \<Rightarrow> Inl TypeError)"

definition canUndo :: "scope_key \<Rightarrow> 'h manager \<Rightarrow> (error + bool) \<times> 'h manager" where
  "canUndo sc m =
     (case getStacks sc m of ((undoStack_v, redoStack_v), m1) \<Rightarrow> (length_gt_0 undoStack_v, m1))"

definition canRedo :: "scope_key \<Rightarrow> 'h manager \<Rightarrow> (error + bool) \<times> 'h manager" where
  "canRedo sc m =
     (case getStacks sc m of ((undoStack_v, redoStack_v), m1) \<Rightarrow> (length_gt_0 redoStack_v, m1))"

section \<open>Notions of the specification\<close>

text \<open>
  The history of a scope: the contents of its own array, oldest entry first, and the empty
  history for a scope that has no array yet (scopes are created lazily).
\<close>

definition stack_contents :: "(scope_key \<rightharpoonup> Change list) \<Rightarrow> scope_key \<Rightarrow> Change list" where
  "stack_contents obj k = (case obj k of Some xs \<Rightarrow> xs | None \<Rightarrow> [])"

text \<open>
  The representation invariant of a manager: the registry has one entry per identifier (it
  is a \<^verbatim>\<open>Map\<close>), and neither object has an own property named like a member of
  \<^verbatim>\<open>Object.prototype\<close>. It holds of \<open>new_manager\<close> and every operation keeps it.
  Only under it is an assignment \<^verbatim>\<open>this.#redoStack[scope] = []\<close> the plain update of an
  own property: it is then never executed with the key \<^verbatim>\<open>__proto__\<close>.
\<close>

definition manager_inv :: "'h manager \<Rightarrow> bool" where
  "manager_inv m \<longleftrightarrow>
     distinct (map fst (handles m)) \<and>
     (\<forall>(s, len) \<in> set Object_prototype.
        undoStack m (StrKey s) = None \<and> redoStack m (StrKey s) = None)"

text \<open>
  The manager states that exist: the new manager, and what the public operations make of
  a state that exists (\<open>startTransaction\<close> changes no field of the manager).
\<close>

inductive reachable :: "('h, 'w) handle_api \<Rightarrow> 'h manager \<Rightarrow> bool"
  for api :: "('h, 'w) handle_api" where
  reach_new: "reachable api new_manager"
| reach_addHandle: "reachable api m \<Longrightarrow> reachable api (snd (addHandle api h m))"
| reach_endTransaction:
    "reachable api m \<Longrightarrow> endTransaction api options m w = (r, m', w') \<Longrightarrow> reachable api m'"
| reach_transaction:
    "reachable api m \<Longrightarrow> transaction api fn options m w = (r, m', w') \<Longrightarrow> reachable api m'"
| reach_undo: "reachable api m \<Longrightarrow> undo api sc m w = (r, m', w') \<Longrightarrow> reachable api m'"
| reach_redo: "reachable api m \<Longrightarrow> redo api sc m w = (r, m', w') \<Longrightarrow> reachable api m'"
| reach_undos: "reachable api m \<Longrightarrow> reachable api (snd (undos sc m))"
| reach_redos: "reachable api m \<Longrightarrow> reachable api (snd (redos sc m))"
| reach_canUndo: "reachable api m \<Longrightarrow> reachable api (snd (canUndo sc m))"
| reach_canRedo: "reachable api m \<Longrightarrow> reachable api (snd (canRedo sc m))"

text \<open>
  The specification's words for the handles an operation addresses: for a list of
  identifiers, the registered handle of each identifier that has one, in the order of the
  list; with no list, all registered handles. And its words for what is done with them:
  each is called in turn, and a call that throws ends the operation.
\<close>

definition spec_registered_handles :: "'h manager \<Rightarrow> DocumentId list \<Rightarrow> 'h list" where
  "spec_registered_handles m is =
     concat (map (\<lambda>i. case getUndoRedoHandle i m of Some h \<Rightarrow> [h] | None \<Rightarrow> []) is)"


fun spec_call_in_order ::
  "('h \<Rightarrow> 'w \<Rightarrow> error option \<times> 'w) \<Rightarrow> 'h list \<Rightarrow> 'w \<Rightarrow> error option \<times> 'w" where
  "spec_call_in_order call [] w = (None, w)"
| "spec_call_in_order call (h # hs) w =
     (case call h w of
        (Some e, w') \<Rightarrow> (Some e, w')
      | (None, w') \<Rightarrow> spec_call_in_order call hs w')"

section \<open>A recording implementation of the handles\<close>

text \<open>
  To run the manager on concrete inputs: a handle is named by its document identifier, the
  outside world is the list of the calls made so far, \<^verbatim>\<open>endTransaction\<close> reports a
  change for the documents listed in \<open>changed\<close>, and \<^verbatim>\<open>undo\<close> and \<^verbatim>\<open>redo\<close> throw
  for those listed in \<open>failing\<close>.
\<close>

datatype call =
    StartTransactionCall DocumentId
  | EndTransactionCall DocumentId
  | UndoCall DocumentId scope_key
  | RedoCall DocumentId scope_key

definition recording_api ::
  "DocumentId list \<Rightarrow> DocumentId list \<Rightarrow> (DocumentId, call list) handle_api" where
  "recording_api changed failing =
     \<lparr>h_documentId = (\<lambda>h. h),
      h_startTransaction = (\<lambda>h w. (None, w @ [StartTransactionCall h])),
      h_endTransaction = (\<lambda>h options w. (Inr (h \<in> set changed), w @ [EndTransactionCall h])),
      h_undo = (\<lambda>h sc w.
        (if h \<in> set failing then Some (HandleError ''undo failed'') else None,
         w @ [UndoCall h sc])),
      h_redo = (\<lambda>h sc w.
        (if h \<in> set failing then Some (HandleError ''redo failed'') else None,
         w @ [RedoCall h sc]))\<rparr>"

definition two_docs :: "DocumentId manager" where
  "two_docs =
     \<lparr>handles = [(''doc1'', ''doc1''), (''doc2'', ''doc2'')],
      undoStack = [defaultScope \<mapsto> []],
      redoStack = [defaultScope \<mapsto> []]\<rparr>"

definition change_a :: Change where
  "change_a = \<lparr>description = Some ''a'', ids = [''doc1'']\<rparr>"

definition change_b :: Change where
  "change_b = \<lparr>description = Some ''b'', ids = [''doc1'', ''doc3'', ''doc2'']\<rparr>"

definition change_c :: Change where
  "change_c = \<lparr>description = None, ids = [''doc2'', ''doc1'']\<rparr>"

definition with_history :: "DocumentId manager" where
  "with_history =
     \<lparr>handles = [(''doc1'', ''doc1''), (''doc2'', ''doc2'')],
      undoStack = [defaultScope \<mapsto> [change_a, change_b]],
      redoStack = [defaultScope \<mapsto> [change_c]]\<rparr>"

section \<open>Properties\<close>

subsection \<open>The history store\<close>

lemma inherited_defaultScope: "inherited defaultScope = None"
  by (simp add: inherited_def defaultScope_def)

lemma inherited_toString: "inherited (StrKey ''toString'') = Some (Some 0)"
  by (simp add: inherited_def Object_prototype_def)

lemma manager_inv_iff:
  "manager_inv m \<longleftrightarrow>
     distinct (map fst (handles m)) \<and>
     (\<forall>k. inherited k \<noteq> None \<longrightarrow> undoStack m k = None \<and> redoStack m k = None)"
proof -
  have "(\<forall>(s, len) \<in> set Object_prototype.
           undoStack m (StrKey s) = None \<and> redoStack m (StrKey s) = None)
        \<longleftrightarrow> (\<forall>k. inherited k \<noteq> None \<longrightarrow> undoStack m k = None \<and> redoStack m k = None)"
    (is "?L \<longleftrightarrow> ?R")
  proof
    assume l: ?L
    show ?R
    proof (intro allI impI)
      fix k assume "inherited k \<noteq> None"
      then obtain s len where "k = StrKey s" "map_of Object_prototype s = Some len"
        by (cases k) (auto simp: inherited_def)
      with l show "undoStack m k = None \<and> redoStack m k = None"
        by (auto dest!: map_of_SomeD)
    qed
  next
    assume r: ?R
    show ?L
    proof (clarify)
      fix s len assume "(s, len) \<in> set Object_prototype"
      then have "map_of Object_prototype s \<noteq> None"
        by (simp add: map_of_eq_None_iff image_iff) force
      then have "inherited (StrKey s) \<noteq> None"
        by (simp add: inherited_def)
      with r show "undoStack m (StrKey s) = None \<and> redoStack m (StrKey s) = None"
        by blast
    qed
  qed
  then show ?thesis
    by (simp add: manager_inv_def)
qed

lemma own_not_inherited:
  "manager_inv m \<Longrightarrow> undoStack m k = Some xs \<or> redoStack m k = Some ys \<Longrightarrow> inherited k = None"
  by (cases "inherited k") (auto simp: manager_inv_iff)

lemma contents_not_inherited:
  "manager_inv m \<Longrightarrow> stack_contents (undoStack m) k \<noteq> [] \<or> stack_contents (redoStack m) k \<noteq> []
     \<Longrightarrow> inherited k = None"
  by (cases "inherited k") (auto simp: manager_inv_iff stack_contents_def)

lemma getStacks_handles: "handles (snd (getStacks sc m)) = handles m"
  by (simp add: getStacks_def Let_def)

lemma getStacks_regular:
  "inherited sc = None \<Longrightarrow>
   getStacks sc m =
     ((Arr (stack_contents (undoStack m) sc), Arr (stack_contents (redoStack m) sc)),
      m\<lparr>undoStack := (undoStack m)(sc \<mapsto> stack_contents (undoStack m) sc),
        redoStack := (redoStack m)(sc \<mapsto> stack_contents (redoStack m) sc)\<rparr>)"
  by (auto simp: getStacks_def Let_def stack_contents_def falsy_def js_get_def map_upd_triv
           split: option.splits)

lemma getStacks_inherited:
  "inherited sc = Some len \<Longrightarrow> undoStack m sc = None \<Longrightarrow> redoStack m sc = None \<Longrightarrow>
   getStacks sc m = ((Proto len, Proto len), m)"
  by (simp add: getStacks_def Let_def falsy_def js_get_def)

lemma getStacks_contents:
  "stack_contents (undoStack (snd (getStacks sc m))) k = stack_contents (undoStack m) k"
  "stack_contents (redoStack (snd (getStacks sc m))) k = stack_contents (redoStack m) k"
  by (auto simp: getStacks_def Let_def stack_contents_def falsy_def js_get_def
           split: option.splits js_value.splits)

lemma getStacks_frame:
  "k \<noteq> sc \<Longrightarrow> undoStack (snd (getStacks sc m)) k = undoStack m k"
  "k \<noteq> sc \<Longrightarrow> redoStack (snd (getStacks sc m)) k = redoStack m k"
  by (auto simp: getStacks_def Let_def)

lemma getStacks_idem: "getStacks sc (snd (getStacks sc m)) = getStacks sc m"
  by (auto simp: getStacks_def Let_def falsy_def js_get_def split: option.splits js_value.splits)

lemma getStacks_inv: "manager_inv m \<Longrightarrow> manager_inv (snd (getStacks sc m))"
  unfolding manager_inv_iff getStacks_def Let_def falsy_def js_get_def
  by (auto split: option.splits js_value.splits)

lemma getStacks_Arr:
  "getStacks sc m = ((Arr us, v), m1) \<Longrightarrow> undoStack m1 sc = Some us \<and> stack_contents (undoStack m) sc = us"
  "getStacks sc m = ((u, Arr rs), m1) \<Longrightarrow> redoStack m1 sc = Some rs \<and> stack_contents (redoStack m) sc = rs"
  by (auto simp: getStacks_def Let_def falsy_def js_get_def stack_contents_def
           split: option.splits js_value.splits if_splits)

lemma pop_snoc: "pop (xs @ [x]) = Some (x, xs)"
  by (simp add: pop_def)

lemma pop_Some: "pop xs = Some (x, ys) \<Longrightarrow> xs = ys @ [x]"
  by (auto simp: pop_def split: if_splits)

lemma forEach_id_spec:
  "forEach_id call (handles m) is w = spec_call_in_order call (spec_registered_handles m is) w"
  by (induction "is" arbitrary: w)
     (auto simp: spec_registered_handles_def getUndoRedoHandle_def split: option.splits prod.splits)

subsection \<open>The invariant is kept\<close>

lemma new_manager_inv: "manager_inv new_manager"
  by (simp add: manager_inv_def new_manager_def defaultScope_def)

lemma map_set_keys: "set (map fst (map_set k v kvs)) = insert k (set (map fst kvs))"
proof (induction kvs)
  case Nil
  then show ?case by simp
next
  case (Cons a kvs)
  then show ?case
    by (cases a) (simp add: insert_commute)
qed

lemma map_set_distinct: "distinct (map fst kvs) \<Longrightarrow> distinct (map fst (map_set k v kvs))"
proof (induction kvs)
  case Nil
  then show ?case by simp
next
  case (Cons a kvs)
  obtain k' v' where a: "a = (k', v')" by (cases a)
  from Cons.prems have "k' \<notin> set (map fst (map_set k v kvs))" if "k' \<noteq> k"
    using that unfolding map_set_keys by (simp add: a)
  with Cons show ?case
    by (auto simp: a)
qed

lemma addHandle_inv: "manager_inv m \<Longrightarrow> manager_inv (snd (addHandle api h m))"
  by (simp add: manager_inv_def addHandle_def map_set_distinct)

lemma endTransaction_inv:
  assumes "manager_inv m" and "endTransaction api options m w = (r, m', w')"
  shows "manager_inv m'"
proof -
  obtain u v m1 where g: "getStacks (resolve_scope options) m = ((u, v), m1)"
    by (metis prod.exhaust)
  with assms(1) have inv1: "manager_inv m1"
    using getStacks_inv [of m "resolve_scope options"] by simp
  have "manager_inv (m1\<lparr>undoStack := (undoStack m1)(resolve_scope options \<mapsto> xs),
                        redoStack := (redoStack m1)(resolve_scope options \<mapsto> ys)\<rparr>)"
    if "u = Arr us" for us xs ys
  proof -
    from g that have "undoStack m1 (resolve_scope options) = Some us"
      by (auto dest: getStacks_Arr)
    with inv1 have "inherited (resolve_scope options) = None"
      by (auto dest: own_not_inherited)
    with inv1 show ?thesis
      by (auto simp: manager_inv_iff)
  qed
  with assms(2) g inv1 show ?thesis
    by (auto simp: endTransaction_def Let_def split: prod.splits sum.splits if_splits js_value.splits)
qed

lemma undo_inv:
  assumes "manager_inv m" and "undo api sc m w = (r, m', w')"
  shows "manager_inv m'"
proof -
  obtain u v m1 where g: "getStacks sc m = ((u, v), m1)"
    by (metis prod.exhaust)
  with assms(1) have inv1: "manager_inv m1"
    using getStacks_inv [of m sc] by simp
  have reg: "inherited sc = None" if "u = Arr us" for us
    using g that inv1 by (auto dest: getStacks_Arr own_not_inherited)
  have "manager_inv (m1\<lparr>undoStack := (undoStack m1)(sc \<mapsto> xs)\<rparr>)"
    and "manager_inv (m1\<lparr>undoStack := (undoStack m1)(sc \<mapsto> xs), redoStack := (redoStack m1)(sc \<mapsto> ys)\<rparr>)"
    if "u = Arr us" for us xs ys
    using reg [OF that] inv1 by (auto simp: manager_inv_iff)
  with assms(2) g inv1 show ?thesis
    by (auto simp: undo_def Let_def split: prod.splits option.splits js_value.splits)
qed

lemma redo_inv:
  assumes "manager_inv m" and "redo api sc m w = (r, m', w')"
  shows "manager_inv m'"
proof -
  obtain u v m1 where g: "getStacks sc m = ((u, v), m1)"
    by (metis prod.exhaust)
  with assms(1) have inv1: "manager_inv m1"
    using getStacks_inv [of m sc] by simp
  have reg: "inherited sc = None" if "v = Arr rs" for rs
    using g that inv1 by (auto dest: getStacks_Arr own_not_inherited)
  have "manager_inv (m1\<lparr>redoStack := (redoStack m1)(sc \<mapsto> xs)\<rparr>)"
    and "manager_inv (m1\<lparr>redoStack := (redoStack m1)(sc \<mapsto> xs), undoStack := (undoStack m1)(sc \<mapsto> ys)\<rparr>)"
    if "v = Arr rs" for rs xs ys
    using reg [OF that] inv1 by (auto simp: manager_inv_iff)
  with assms(2) g inv1 show ?thesis
    by (auto simp: redo_def Let_def split: prod.splits option.splits js_value.splits)
qed

lemma queries_inv:
  "manager_inv m \<Longrightarrow> manager_inv (snd (undos sc m))"
  "manager_inv m \<Longrightarrow> manager_inv (snd (redos sc m))"
  "manager_inv m \<Longrightarrow> manager_inv (snd (canUndo sc m))"
  "manager_inv m \<Longrightarrow> manager_inv (snd (canRedo sc m))"
  using getStacks_inv [of m sc]
  by (auto simp: undos_def redos_def canUndo_def canRedo_def split: prod.splits)


lemma with_history_inv: "manager_inv with_history"
  by (simp add: manager_inv_def with_history_def defaultScope_def)

lemma transaction_inv:
  assumes "manager_inv m" and "transaction api fn options m w = (r, m', w')"
  shows "manager_inv m'"
  using assms
  by (auto simp: transaction_def split: prod.splits option.splits sum.splits
           dest: endTransaction_inv)

lemma reachable_manager_inv: "reachable api m \<Longrightarrow> manager_inv m"
proof (induction rule: reachable.induct)
  case reach_new
  show ?case by (rule new_manager_inv)
next
  case (reach_addHandle m h)
  then show ?case by (simp add: addHandle_inv)
next
  case (reach_endTransaction m options w r m' w')
  then show ?case by (blast intro: endTransaction_inv)
next
  case (reach_transaction m fn options w r m' w')
  then show ?case by (blast intro: transaction_inv)
next
  case (reach_undo m sc w r m' w')
  then show ?case by (blast intro: undo_inv)
next
  case (reach_redo m sc w r m' w')
  then show ?case by (blast intro: redo_inv)
next
  case (reach_undos m sc)
  then show ?case by (simp add: queries_inv)
next
  case (reach_redos m sc)
  then show ?case by (simp add: queries_inv)
next
  case (reach_canUndo m sc)
  then show ?case by (simp add: queries_inv)
next
  case (reach_canRedo m sc)
  then show ?case by (simp add: queries_inv)
qed

subsection \<open>Undo and redo on a scope with history\<close>

lemma contents_snoc_own:
  "stack_contents obj k = xs @ [x] \<Longrightarrow> obj k = Some (xs @ [x])"
  by (auto simp: stack_contents_def split: option.splits)

lemma spec_registered_handles_stacks:
  "spec_registered_handles (m\<lparr>undoStack := u\<rparr>) is = spec_registered_handles m is"
  "spec_registered_handles (m\<lparr>redoStack := r\<rparr>) is = spec_registered_handles m is"
  by (simp_all add: spec_registered_handles_def getUndoRedoHandle_def)

lemma undo_step:
  assumes inv: "manager_inv m"
    and top: "stack_contents (undoStack m) sc = us @ [c]"
  shows "undo api sc m w =
           (case spec_call_in_order (\<lambda>h. h_undo api h sc) (spec_registered_handles m (ids c)) w of
              (Some e, w') \<Rightarrow>
                (Inl e,
                 m\<lparr>undoStack := (undoStack m)(sc \<mapsto> us),
                   redoStack := (redoStack m)(sc \<mapsto> stack_contents (redoStack m) sc)\<rparr>,
                 w')
            | (None, w') \<Rightarrow>
                (Inr (Some (in_scope c sc)),
                 m\<lparr>undoStack := (undoStack m)(sc \<mapsto> us),
                   redoStack := (redoStack m)(sc \<mapsto> stack_contents (redoStack m) sc @ [c])\<rparr>,
                 w'))"
proof -
  have reg: "inherited sc = None"
    using contents_not_inherited [OF inv, of sc] top by simp
  show ?thesis
    unfolding undo_def getStacks_regular [OF reg]
    by (simp add: top pop_snoc forEach_id_spec spec_registered_handles_stacks Let_def
             split: prod.splits option.splits)
qed

lemma redo_step:
  assumes inv: "manager_inv m"
    and top: "stack_contents (redoStack m) sc = rs @ [c]"
  shows "redo api sc m w =
           (case spec_call_in_order (\<lambda>h. h_redo api h sc) (spec_registered_handles m (ids c)) w of
              (Some e, w') \<Rightarrow>
                (Inl e,
                 m\<lparr>undoStack := (undoStack m)(sc \<mapsto> stack_contents (undoStack m) sc),
                   redoStack := (redoStack m)(sc \<mapsto> rs)\<rparr>,
                 w')
            | (None, w') \<Rightarrow>
                (Inr (Some (in_scope c sc)),
                 m\<lparr>undoStack := (undoStack m)(sc \<mapsto> stack_contents (undoStack m) sc @ [c]),
                   redoStack := (redoStack m)(sc \<mapsto> rs)\<rparr>,
                 w'))"
proof -
  have reg: "inherited sc = None"
    using contents_not_inherited [OF inv, of sc] top by simp
  show ?thesis
    unfolding redo_def getStacks_regular [OF reg]
    by (simp add: top pop_snoc forEach_id_spec spec_registered_handles_stacks Let_def
             split: prod.splits option.splits)
qed

text \<open>
  Claim C5. In a manager state satisfying the invariant, let the history of scope
  \<open>sc\<close> on the undo side end with the change \<open>c\<close>. Then \<open>undo sc\<close> calls
  \<^verbatim>\<open>handle.undo(sc)\<close> on the registered handle of each identifier of \<open>c\<close>, in the order
  of the list, passing over identifiers with no registered handle; when none of these
  calls throws, it removes \<open>c\<close> from the end of the undo stack of \<open>sc\<close>, appends it to
  the redo stack of \<open>sc\<close> and returns the value whose description and ids are those of
  \<open>c\<close> and whose scope is \<open>sc\<close>. The same holds of \<open>redo\<close>, with
  \<^verbatim>\<open>handle.redo\<close> and the two stacks exchanged.
\<close>

theorem undo_redo_replay:
  assumes "manager_inv m"
  shows "(stack_contents (undoStack m) sc = us @ [c] \<and>
          spec_call_in_order (\<lambda>h. h_undo api h sc) (spec_registered_handles m (ids c)) w
            = (None, w')
          \<longrightarrow> undo api sc m w =
                (Inr (Some \<lparr>description = description c, ids = ids c, scope = sc\<rparr>),
                 m\<lparr>undoStack := (undoStack m)(sc \<mapsto> us),
                   redoStack := (redoStack m)(sc \<mapsto> stack_contents (redoStack m) sc @ [c])\<rparr>,
                 w'))
       \<and> (stack_contents (redoStack m) sc = rs @ [c] \<and>
          spec_call_in_order (\<lambda>h. h_redo api h sc) (spec_registered_handles m (ids c)) w
            = (None, w')
          \<longrightarrow> redo api sc m w =
                (Inr (Some \<lparr>description = description c, ids = ids c, scope = sc\<rparr>),
                 m\<lparr>undoStack := (undoStack m)(sc \<mapsto> stack_contents (undoStack m) sc @ [c]),
                   redoStack := (redoStack m)(sc \<mapsto> rs)\<rparr>,
                 w'))"
  using assms by (simp add: undo_step redo_step in_scope_def)

theorem undo_redo_replay_witness:
  "undo (recording_api [] []) defaultScope with_history []
     = (Inr (Some \<lparr>description = Some ''b'', ids = [''doc1'', ''doc3'', ''doc2''],
                   scope = defaultScope\<rparr>),
        with_history\<lparr>undoStack := [defaultScope \<mapsto> [change_a]],
                      redoStack := [defaultScope \<mapsto> [change_c, change_b]]\<rparr>,
        [UndoCall ''doc1'' defaultScope, UndoCall ''doc2'' defaultScope])
   \<and> redo (recording_api [] []) defaultScope with_history []
     = (Inr (Some \<lparr>description = None, ids = [''doc2'', ''doc1''],
                   scope = defaultScope\<rparr>),
        with_history\<lparr>undoStack := [defaultScope \<mapsto> [change_a, change_b, change_c]],
                      redoStack := [defaultScope \<mapsto> []]\<rparr>,
        [RedoCall ''doc2'' defaultScope, RedoCall ''doc1'' defaultScope])"
proof -
  have u: "stack_contents (undoStack with_history) defaultScope = [change_a] @ [change_b]"
    and r: "stack_contents (redoStack with_history) defaultScope = [] @ [change_c]"
    by (simp_all add: stack_contents_def with_history_def)
  have cu: "spec_call_in_order (\<lambda>h. h_undo (recording_api [] []) h defaultScope)
              (spec_registered_handles with_history (ids change_b)) []
            = (None, [UndoCall ''doc1'' defaultScope, UndoCall ''doc2'' defaultScope])"
    and cr: "spec_call_in_order (\<lambda>h. h_redo (recording_api [] []) h defaultScope)
              (spec_registered_handles with_history (ids change_c)) []
            = (None, [RedoCall ''doc2'' defaultScope, RedoCall ''doc1'' defaultScope])"
    by (simp_all add: spec_registered_handles_def getUndoRedoHandle_def map_get_def
          with_history_def change_b_def change_c_def recording_api_def)
  from undo_redo_replay [OF with_history_inv, where sc = defaultScope and us = "[change_a]"
      and c = change_b and api = "recording_api [] []" and w = "[]"] u cu
  have 1: "undo (recording_api [] []) defaultScope with_history []
     = (Inr (Some \<lparr>description = Some ''b'', ids = [''doc1'', ''doc3'', ''doc2''],
                   scope = defaultScope\<rparr>),
        with_history\<lparr>undoStack := (undoStack with_history)(defaultScope \<mapsto> [change_a]),
          redoStack := (redoStack with_history)
            (defaultScope \<mapsto> stack_contents (redoStack with_history) defaultScope @ [change_b])\<rparr>,
        [UndoCall ''doc1'' defaultScope, UndoCall ''doc2'' defaultScope])"
    by (simp add: change_b_def)
  from undo_redo_replay [OF with_history_inv, where sc = defaultScope and rs = "[]"
      and c = change_c and api = "recording_api [] []" and w = "[]"] r cr
  have 2: "redo (recording_api [] []) defaultScope with_history []
     = (Inr (Some \<lparr>description = None, ids = [''doc2'', ''doc1''],
                   scope = defaultScope\<rparr>),
        with_history\<lparr>undoStack := (undoStack with_history)
            (defaultScope \<mapsto> stack_contents (undoStack with_history) defaultScope @ [change_c]),
          redoStack := (redoStack with_history)(defaultScope \<mapsto> [])\<rparr>,
        [RedoCall ''doc2'' defaultScope, RedoCall ''doc1'' defaultScope])"
    by (simp add: change_c_def)
  have run: "fst (undo (recording_api [] []) defaultScope with_history [])
               = Inr (Some \<lparr>description = Some ''b'', ids = [''doc1'', ''doc3'', ''doc2''],
                             scope = defaultScope\<rparr>)"
    "fst (redo (recording_api [] []) defaultScope with_history [])
       = Inr (Some \<lparr>description = None, ids = [''doc2'', ''doc1''], scope = defaultScope\<rparr>)"
    by (simp_all add: undo_def redo_def getStacks_def js_get_def falsy_def inherited_def pop_def
          map_get_def in_scope_def Let_def defaultScope_def recording_api_def with_history_def
          change_a_def change_b_def change_c_def)
  from run show ?thesis
    unfolding 1 2 by (simp add: stack_contents_def with_history_def)
qed

text \<open>
  Claim C10. Under the same conditions, when one of the handle calls made by \<open>undo sc\<close>
  throws, the exception leaves the manager with \<open>c\<close> removed from the undo stack of
  \<open>sc\<close> and the redo stack of \<open>sc\<close> as it was: the entry is on neither stack. The same
  holds of \<open>redo\<close>, the stacks exchanged.
\<close>

theorem undo_redo_failure_loses_change:
  assumes "manager_inv m"
  shows "(stack_contents (undoStack m) sc = us @ [c] \<and>
          spec_call_in_order (\<lambda>h. h_undo api h sc) (spec_registered_handles m (ids c)) w
            = (Some e, w')
          \<longrightarrow> undo api sc m w =
                (Inl e,
                 m\<lparr>undoStack := (undoStack m)(sc \<mapsto> us),
                   redoStack := (redoStack m)(sc \<mapsto> stack_contents (redoStack m) sc)\<rparr>,
                 w'))
       \<and> (stack_contents (redoStack m) sc = rs @ [c] \<and>
          spec_call_in_order (\<lambda>h. h_redo api h sc) (spec_registered_handles m (ids c)) w
            = (Some e, w')
          \<longrightarrow> redo api sc m w =
                (Inl e,
                 m\<lparr>undoStack := (undoStack m)(sc \<mapsto> stack_contents (undoStack m) sc),
                   redoStack := (redoStack m)(sc \<mapsto> rs)\<rparr>,
                 w'))"
  using assms by (simp add: undo_step redo_step)

theorem undo_redo_failure_loses_change_witness:
  "undo (recording_api [] [''doc2'']) defaultScope with_history []
     = (Inl (HandleError ''undo failed''),
        with_history\<lparr>undoStack := [defaultScope \<mapsto> [change_a]]\<rparr>,
        [UndoCall ''doc1'' defaultScope, UndoCall ''doc2'' defaultScope])
   \<and> redo (recording_api [] [''doc2'']) defaultScope with_history []
     = (Inl (HandleError ''redo failed''),
        with_history\<lparr>redoStack := [defaultScope \<mapsto> []]\<rparr>,
        [RedoCall ''doc2'' defaultScope])"
proof -
  have u: "stack_contents (undoStack with_history) defaultScope = [change_a] @ [change_b]"
    and r: "stack_contents (redoStack with_history) defaultScope = [] @ [change_c]"
    by (simp_all add: stack_contents_def with_history_def)
  have cu: "spec_call_in_order (\<lambda>h. h_undo (recording_api [] [''doc2'']) h defaultScope)
              (spec_registered_handles with_history (ids change_b)) []
            = (Some (HandleError ''undo failed''),
               [UndoCall ''doc1'' defaultScope, UndoCall ''doc2'' defaultScope])"
    and cr: "spec_call_in_order (\<lambda>h. h_redo (recording_api [] [''doc2'']) h defaultScope)
              (spec_registered_handles with_history (ids change_c)) []
            = (Some (HandleError ''redo failed''), [RedoCall ''doc2'' defaultScope])"
    by (simp_all add: spec_registered_handles_def getUndoRedoHandle_def map_get_def
          with_history_def change_b_def change_c_def recording_api_def)
  from undo_redo_failure_loses_change [OF with_history_inv, where sc = defaultScope
      and us = "[change_a]" and c = change_b and api = "recording_api [] [''doc2'']"
      and w = "[]"] u cu
  have 1: "undo (recording_api [] [''doc2'']) defaultScope with_history []
     = (Inl (HandleError ''undo failed''),
        with_history\<lparr>undoStack := (undoStack with_history)(defaultScope \<mapsto> [change_a]),
          redoStack := (redoStack with_history)
            (defaultScope \<mapsto> stack_contents (redoStack with_history) defaultScope)\<rparr>,
        [UndoCall ''doc1'' defaultScope, UndoCall ''doc2'' defaultScope])"
    by simp
  from undo_redo_failure_loses_change [OF with_history_inv, where sc = defaultScope
      and rs = "[]" and c = change_c and api = "recording_api [] [''doc2'']" and w = "[]"] r cr
  have 2: "redo (recording_api [] [''doc2'']) defaultScope with_history []
     = (Inl (HandleError ''redo failed''),
        with_history\<lparr>undoStack := (undoStack with_history)
            (defaultScope \<mapsto> stack_contents (undoStack with_history) defaultScope),
          redoStack := (redoStack with_history)(defaultScope \<mapsto> [])\<rparr>,
        [RedoCall ''doc2'' defaultScope])"
    by simp
  show ?thesis
    unfolding 1 2 by (simp add: stack_contents_def with_history_def)
qed

text \<open>
  Claim C2. In a manager state satisfying the invariant, let the undo stack of scope
  \<open>sc\<close> end with the change \<open>c\<close>, and let no handle call throw. Then \<open>undo sc\<close>
  followed by \<open>redo sc\<close> both return the value whose description and ids are those of
  \<open>c\<close> and whose scope is \<open>sc\<close>, and the manager
  they leave is the one that merely looking up the stacks of \<open>sc\<close> leaves: the contents
  of the undo and redo stack of every scope are what they were before the undo.
\<close>

theorem undo_then_redo_round_trip:
  assumes "manager_inv m"
  shows "stack_contents (undoStack m) sc = us @ [c] \<and>
         spec_call_in_order (\<lambda>h. h_undo api h sc) (spec_registered_handles m (ids c)) w
           = (None, w1) \<and>
         spec_call_in_order (\<lambda>h. h_redo api h sc) (spec_registered_handles m (ids c)) w1
           = (None, w2)
         \<longrightarrow> (let m1 = m\<lparr>undoStack := (undoStack m)(sc \<mapsto> us),
                          redoStack := (redoStack m)
                            (sc \<mapsto> stack_contents (redoStack m) sc @ [c])\<rparr>;
                  m2 = snd (getStacks sc m)
              in undo api sc m w = (Inr (Some \<lparr>description = description c, ids = ids c, scope = sc\<rparr>), m1, w1) \<and>
                 redo api sc m1 w1 = (Inr (Some \<lparr>description = description c, ids = ids c, scope = sc\<rparr>), m2, w2) \<and>
                 (\<forall>k. stack_contents (undoStack m2) k = stack_contents (undoStack m) k \<and>
                      stack_contents (redoStack m2) k = stack_contents (redoStack m) k))"
proof (intro impI, elim conjE)
  assume top: "stack_contents (undoStack m) sc = us @ [c]"
    and cu: "spec_call_in_order (\<lambda>h. h_undo api h sc) (spec_registered_handles m (ids c)) w
               = (None, w1)"
    and cr: "spec_call_in_order (\<lambda>h. h_redo api h sc) (spec_registered_handles m (ids c)) w1
               = (None, w2)"
  define m1 where "m1 = m\<lparr>undoStack := (undoStack m)(sc \<mapsto> us),
      redoStack := (redoStack m)(sc \<mapsto> stack_contents (redoStack m) sc @ [c])\<rparr>"
  have reg: "inherited sc = None"
    using contents_not_inherited [OF assms, of sc] top by simp
  have u: "undo api sc m w = (Inr (Some (in_scope c sc)), m1, w1)"
    using undo_step [OF assms top, of api w] cu by (simp add: m1_def)
  have inv1: "manager_inv m1"
    by (rule undo_inv [OF assms u])
  have top1: "stack_contents (redoStack m1) sc = stack_contents (redoStack m) sc @ [c]"
    by (simp add: m1_def stack_contents_def)
  have hs1: "spec_registered_handles m1 (ids c) = spec_registered_handles m (ids c)"
    by (simp add: m1_def spec_registered_handles_stacks)
  have r: "redo api sc m1 w1 = (Inr (Some (in_scope c sc)), snd (getStacks sc m), w2)"
    using redo_step [OF inv1 top1, of api w1] cr
    by (simp add: hs1 getStacks_regular [OF reg] top) (simp add: m1_def stack_contents_def)
  from u r show "let m1 = m\<lparr>undoStack := (undoStack m)(sc \<mapsto> us),
                   redoStack := (redoStack m)(sc \<mapsto> stack_contents (redoStack m) sc @ [c])\<rparr>;
                   m2 = snd (getStacks sc m)
        in undo api sc m w = (Inr (Some \<lparr>description = description c, ids = ids c, scope = sc\<rparr>), m1, w1) \<and>
           redo api sc m1 w1 = (Inr (Some \<lparr>description = description c, ids = ids c, scope = sc\<rparr>), m2, w2) \<and>
           (\<forall>k. stack_contents (undoStack m2) k = stack_contents (undoStack m) k \<and>
                stack_contents (redoStack m2) k = stack_contents (redoStack m) k)"
    by (simp add: getStacks_contents m1_def in_scope_def)
qed

theorem undo_then_redo_round_trip_witness:
  "undo (recording_api [] []) defaultScope with_history []
     = (Inr (Some \<lparr>description = Some ''b'', ids = [''doc1'', ''doc3'', ''doc2''],
                   scope = defaultScope\<rparr>),
        with_history\<lparr>undoStack := [defaultScope \<mapsto> [change_a]],
                      redoStack := [defaultScope \<mapsto> [change_c, change_b]]\<rparr>,
        [UndoCall ''doc1'' defaultScope, UndoCall ''doc2'' defaultScope])
   \<and> redo (recording_api [] []) defaultScope
        (with_history\<lparr>undoStack := [defaultScope \<mapsto> [change_a]],
                       redoStack := [defaultScope \<mapsto> [change_c, change_b]]\<rparr>)
        [UndoCall ''doc1'' defaultScope, UndoCall ''doc2'' defaultScope]
     = (Inr (Some \<lparr>description = Some ''b'', ids = [''doc1'', ''doc3'', ''doc2''],
                   scope = defaultScope\<rparr>),
        with_history,
        [UndoCall ''doc1'' defaultScope, UndoCall ''doc2'' defaultScope,
         RedoCall ''doc1'' defaultScope, RedoCall ''doc2'' defaultScope])"
proof -
  let ?w1 = "[UndoCall ''doc1'' defaultScope, UndoCall ''doc2'' defaultScope]"
  let ?w2 = "[UndoCall ''doc1'' defaultScope, UndoCall ''doc2'' defaultScope,
              RedoCall ''doc1'' defaultScope, RedoCall ''doc2'' defaultScope]"
  have u: "stack_contents (undoStack with_history) defaultScope = [change_a] @ [change_b]"
    by (simp add: stack_contents_def with_history_def)
  have cu: "spec_call_in_order (\<lambda>h. h_undo (recording_api [] []) h defaultScope)
              (spec_registered_handles with_history (ids change_b)) [] = (None, ?w1)"
    and cr: "spec_call_in_order (\<lambda>h. h_redo (recording_api [] []) h defaultScope)
              (spec_registered_handles with_history (ids change_b)) ?w1 = (None, ?w2)"
    by (simp_all add: spec_registered_handles_def getUndoRedoHandle_def map_get_def
          with_history_def change_b_def recording_api_def)
  have g: "snd (getStacks defaultScope with_history) = with_history"
    by (simp add: getStacks_regular [OF inherited_defaultScope] stack_contents_def
          with_history_def)
  have f: "description change_b = Some ''b''" "ids change_b = [''doc1'', ''doc3'', ''doc2'']"
    by (simp_all add: change_b_def)
  have m1: "with_history\<lparr>undoStack := (undoStack with_history)(defaultScope \<mapsto> [change_a]),
              redoStack := (redoStack with_history)
                (defaultScope \<mapsto> stack_contents (redoStack with_history) defaultScope @ [change_b])\<rparr>
            = with_history\<lparr>undoStack := [defaultScope \<mapsto> [change_a]],
                            redoStack := [defaultScope \<mapsto> [change_c, change_b]]\<rparr>"
    by (simp add: stack_contents_def with_history_def)
  from undo_then_redo_round_trip [OF with_history_inv, where sc = defaultScope
      and us = "[change_a]" and c = change_b and api = "recording_api [] []" and w = "[]"
      and ?w1.0 = ?w1 and ?w2.0 = ?w2] u cu cr
  have rt: "undo (recording_api [] []) defaultScope with_history []
     = (Inr (Some \<lparr>description = Some ''b'', ids = [''doc1'', ''doc3'', ''doc2''],
                   scope = defaultScope\<rparr>),
        with_history\<lparr>undoStack := [defaultScope \<mapsto> [change_a]],
                      redoStack := [defaultScope \<mapsto> [change_c, change_b]]\<rparr>,
        ?w1)
   \<and> redo (recording_api [] []) defaultScope
        (with_history\<lparr>undoStack := [defaultScope \<mapsto> [change_a]],
                       redoStack := [defaultScope \<mapsto> [change_c, change_b]]\<rparr>)
        ?w1
     = (Inr (Some \<lparr>description = Some ''b'', ids = [''doc1'', ''doc3'', ''doc2''],
                   scope = defaultScope\<rparr>),
        with_history, ?w2)"
    unfolding Let_def g m1 f by simp
  have run: "fst (undo (recording_api [] []) defaultScope with_history [])
               = Inr (Some \<lparr>description = Some ''b'', ids = [''doc1'', ''doc3'', ''doc2''],
                             scope = defaultScope\<rparr>)"
    "fst (redo (recording_api [] []) defaultScope
        (with_history\<lparr>undoStack := [defaultScope \<mapsto> [change_a]],
                       redoStack := [defaultScope \<mapsto> [change_c, change_b]]\<rparr>)
        ?w1)
       = Inr (Some \<lparr>description = Some ''b'', ids = [''doc1'', ''doc3'', ''doc2''],
                     scope = defaultScope\<rparr>)"
    by (simp_all add: undo_def redo_def getStacks_def js_get_def falsy_def inherited_def pop_def
          map_get_def in_scope_def Let_def defaultScope_def recording_api_def with_history_def
          change_a_def change_b_def change_c_def)
  from rt run show ?thesis
    by simp
qed

subsection \<open>Scopes named like a member of \<^verbatim>\<open>Object.prototype\<close>\<close>

lemma undo_redo_nothing:
  assumes "inherited sc = None"
  shows "stack_contents (undoStack m) sc = [] \<Longrightarrow> undo api sc m w = (Inr None, snd (getStacks sc m), w)"
    and "stack_contents (redoStack m) sc = [] \<Longrightarrow> redo api sc m w = (Inr None, snd (getStacks sc m), w)"
  by (simp_all add: undo_def redo_def getStacks_regular [OF assms] pop_def)

lemma undo_redo_inherited:
  assumes "manager_inv m" and "inherited sc = Some len"
  shows "undo api sc m w = (Inl TypeError, m, w)"
    and "redo api sc m w = (Inl TypeError, m, w)"
    and "stack_contents (undoStack m) sc = []"
    and "stack_contents (redoStack m) sc = []"
  using assms
  by (simp_all add: undo_def redo_def manager_inv_iff getStacks_inherited stack_contents_def)

text \<open>
  Claim C7 does not hold of the code under a scope named like a member of
  \<^verbatim>\<open>Object.prototype\<close>. In a new manager nothing was ever recorded under the scope
  \<^verbatim>\<open>"toString"\<close>, so its undo and redo histories are empty, and \<^verbatim>\<open>canUndo\<close>
  and \<^verbatim>\<open>canRedo\<close> answer \<^verbatim>\<open>false\<close>. Yet \<^verbatim>\<open>undo("toString")\<close> and
  \<^verbatim>\<open>redo("toString")\<close> throw a \<^verbatim>\<open>TypeError\<close> instead of returning \<^verbatim>\<open>undefined\<close>:
  \<^verbatim>\<open>getStacks\<close> found \<^verbatim>\<open>Object.prototype.toString\<close> where it looked for an array, and
  a function has no \<^verbatim>\<open>pop\<close> (in general: lemma \<open>undo_redo_inherited\<close>). Under any
  scope that is not a key of \<^verbatim>\<open>Object.prototype\<close>, \<open>undo\<close> and \<open>redo\<close> on an empty
  stack return \<^verbatim>\<open>undefined\<close>, call no handle and only create the empty arrays of the
  scope (lemma \<open>undo_redo_nothing\<close>).
\<close>

theorem undo_redo_prototype_scope_throws:
  "stack_contents (undoStack (new_manager :: DocumentId manager)) (StrKey ''toString'') = []
   \<and> stack_contents (redoStack (new_manager :: DocumentId manager)) (StrKey ''toString'') = []
   \<and> canUndo (StrKey ''toString'') (new_manager :: DocumentId manager) = (Inr False, new_manager)
   \<and> canRedo (StrKey ''toString'') (new_manager :: DocumentId manager) = (Inr False, new_manager)
   \<and> undo (recording_api [] []) (StrKey ''toString'') new_manager [] = (Inl TypeError, new_manager, [])
   \<and> redo (recording_api [] []) (StrKey ''toString'') new_manager [] = (Inl TypeError, new_manager, [])"
proof -
  have g: "getStacks (StrKey ''toString'') (new_manager :: DocumentId manager)
             = ((Proto (Some 0), Proto (Some 0)), new_manager)"
    by (rule getStacks_inherited [OF inherited_toString])
       (simp_all add: new_manager_def defaultScope_def)
  show ?thesis
    by (simp add: undo_def redo_def canUndo_def canRedo_def g length_gt_0_def)
       (simp add: stack_contents_def new_manager_def defaultScope_def)
qed

subsection \<open>Recording a transaction\<close>

lemma filter_not_null_empty: "filter_not_null rs = [] \<longleftrightarrow> (\<forall>r \<in> set rs. r = None)"
  by (induction rs rule: filter_not_null.induct) auto

lemma filter_not_null_set: "set (filter_not_null rs) = {i. Some i \<in> set rs}"
  by (induction rs rule: filter_not_null.induct) auto

lemma map_endTransaction_entries:
  "map_endTransaction api options es w = (Inr rs, w') \<Longrightarrow>
   list_all2 (\<lambda>r e. r = None \<or> r = Some (fst e)) rs es"
proof (induction es arbitrary: rs w)
  case Nil
  then show ?case by simp
next
  case (Cons e es)
  obtain i h where e: "e = (i, h)" by (cases e)
  from Cons.prems obtain h' where h: "h = Some h'"
    by (cases h) (auto simp: e)
  from Cons.prems obtain changed w1 rs' where
    "h_endTransaction api h' options w = (Inr changed, w1)"
    "map_endTransaction api options es w1 = (Inr rs', w')"
    "rs = (if changed then Some i else None) # rs'"
    by (auto simp: e h split: prod.splits sum.splits)
  with Cons.IH [of w1 rs'] show ?case
    by (auto simp: e)
qed

lemma endTransaction_handleEntries_getStacks:
  "endTransaction_handleEntries deps (snd (getStacks sc m)) = endTransaction_handleEntries deps m"
  by (simp add: endTransaction_handleEntries_def getStacks_handles split: option.splits)

lemma endTransaction_records:
  assumes reg: "inherited (resolve_scope options) = None"
    and calls: "map_endTransaction api options
                  (endTransaction_handleEntries (dependencies options) m) w = (Inr rs, w')"
    and some: "filter_not_null rs \<noteq> []"
  shows "endTransaction api options m w =
           (Inr (Some \<lparr>description = opt_description options, ids = filter_not_null rs,
                       scope = resolve_scope options\<rparr>),
            m\<lparr>undoStack := (undoStack m)
                 (resolve_scope options \<mapsto>
                    stack_contents (undoStack m) (resolve_scope options)
                      @ [\<lparr>description = opt_description options, ids = filter_not_null rs\<rparr>]),
              redoStack := (redoStack m)(resolve_scope options \<mapsto> [])\<rparr>,
            w')"
proof -
  have e: "endTransaction_handleEntries (dependencies options)
             (m\<lparr>undoStack := u, redoStack := r\<rparr>)
           = endTransaction_handleEntries (dependencies options) m" for u r
    by (simp add: endTransaction_handleEntries_def split: option.splits)
  show ?thesis
    unfolding endTransaction_def Let_def getStacks_regular [OF reg]
    by (simp add: e calls some)
qed

lemma endTransaction_inherited:
  assumes "manager_inv m"
    and "inherited (resolve_scope options) = Some len"
    and "map_endTransaction api options
           (endTransaction_handleEntries (dependencies options) m) w = (Inr rs, w')"
    and "filter_not_null rs \<noteq> []"
  shows "endTransaction api options m w = (Inl TypeError, m, w')"
proof -
  from assms(1,2) have "getStacks (resolve_scope options) m = ((Proto len, Proto len), m)"
    by (simp add: manager_inv_iff getStacks_inherited)
  with assms(3,4) show ?thesis
    by (simp add: endTransaction_def)
qed

text \<open>
  Claim C1 does not hold of the code under a scope named like a member of
  \<^verbatim>\<open>Object.prototype\<close>. Two documents are registered, \<^verbatim>\<open>doc1\<close> reports an
  effective change, and the transaction is ended under the scope \<^verbatim>\<open>"toString"\<close>. Both
  handles are asked, and the identifiers collected are \<^verbatim>\<open>["doc1"]\<close>; but
  \<^verbatim>\<open>undoStack.push\<close> is then called on \<^verbatim>\<open>Object.prototype.toString\<close>, which
  \<^verbatim>\<open>getStacks\<close> returned in place of an array: the manager throws a \<^verbatim>\<open>TypeError\<close>,
  records nothing and returns no change (in general: lemma \<open>endTransaction_inherited\<close>).
  Under any scope that is not a key of \<^verbatim>\<open>Object.prototype\<close> the change is pushed on
  the undo stack of the scope, its redo stack is emptied and the change is returned with the
  scope, as claimed (lemma \<open>endTransaction_records\<close>).
\<close>

theorem endTransaction_prototype_scope_throws:
  "map_endTransaction (recording_api [''doc1''] [])
     \<lparr>opt_description = Some ''edit'', opt_scope = Some (StrKey ''toString''),
      dependencies = None\<rparr>
     (endTransaction_handleEntries None two_docs) []
     = (Inr [Some ''doc1'', None], [EndTransactionCall ''doc1'', EndTransactionCall ''doc2''])
   \<and> endTransaction (recording_api [''doc1''] [])
     \<lparr>opt_description = Some ''edit'', opt_scope = Some (StrKey ''toString''),
      dependencies = None\<rparr> two_docs []
     = (Inl TypeError, two_docs, [EndTransactionCall ''doc1'', EndTransactionCall ''doc2''])"
proof -
  have g: "getStacks (StrKey ''toString'') two_docs = ((Proto (Some 0), Proto (Some 0)), two_docs)"
    by (rule getStacks_inherited [OF inherited_toString])
       (simp_all add: two_docs_def defaultScope_def)
  have c: "map_endTransaction (recording_api [''doc1''] [])
     \<lparr>opt_description = Some ''edit'', opt_scope = Some (StrKey ''toString''),
      dependencies = None\<rparr>
     (endTransaction_handleEntries None two_docs) []
     = (Inr [Some ''doc1'', None], [EndTransactionCall ''doc1'', EndTransactionCall ''doc2''])"
    by (simp add: endTransaction_handleEntries_def two_docs_def recording_api_def)
  show ?thesis
    by (simp add: c endTransaction_def resolve_scope_def g)
qed

text \<open>
  Claim C3. When every target handle's \<^verbatim>\<open>endTransaction(options)\<close> returns and none
  returns true (the array of collected results holds \<^verbatim>\<open>null\<close> only; with no target
  handle it is empty), the manager's \<open>endTransaction\<close> returns \<^verbatim>\<open>undefined\<close> and throws
  nothing; the manager it leaves is the one that looking up the stacks of the resolved scope
  leaves, in which the undo stack and the redo stack of every scope have the contents they
  had: nothing is pushed and no redo stack is cleared.
\<close>

theorem endTransaction_without_change:
  "map_endTransaction api options (endTransaction_handleEntries (dependencies options) m) w
     = (Inr rs, w') \<and> (\<forall>r \<in> set rs. r = None)
   \<longrightarrow> endTransaction api options m w
         = (Inr None, snd (getStacks (resolve_scope options) m), w')
       \<and> (\<forall>k. stack_contents (undoStack (snd (getStacks (resolve_scope options) m))) k
                = stack_contents (undoStack m) k
              \<and> stack_contents (redoStack (snd (getStacks (resolve_scope options) m))) k
                = stack_contents (redoStack m) k)"
proof (intro impI, elim conjE)
  assume calls: "map_endTransaction api options
                   (endTransaction_handleEntries (dependencies options) m) w = (Inr rs, w')"
    and none: "\<forall>r \<in> set rs. r = None"
  from none have "filter_not_null rs = []"
    by (simp add: filter_not_null_empty)
  moreover obtain u v m1 where g: "getStacks (resolve_scope options) m = ((u, v), m1)"
    by (metis prod.exhaust)
  moreover have "endTransaction_handleEntries (dependencies options) m1
                   = endTransaction_handleEntries (dependencies options) m"
    using endTransaction_handleEntries_getStacks [of "dependencies options" "resolve_scope options" m]
    by (simp add: g)
  ultimately have "endTransaction api options m w
      = (Inr None, snd (getStacks (resolve_scope options) m), w')"
    using calls by (simp add: endTransaction_def Let_def)
  then show "endTransaction api options m w
         = (Inr None, snd (getStacks (resolve_scope options) m), w')
       \<and> (\<forall>k. stack_contents (undoStack (snd (getStacks (resolve_scope options) m))) k
                = stack_contents (undoStack m) k
              \<and> stack_contents (redoStack (snd (getStacks (resolve_scope options) m))) k
                = stack_contents (redoStack m) k)"
    by (simp add: getStacks_contents)
qed

theorem endTransaction_without_change_witness:
  "endTransaction (recording_api [] [])
     \<lparr>opt_description = Some ''nothing'', opt_scope = None, dependencies = Some [''doc1'']\<rparr>
     with_history []
     = (Inr None, with_history, [EndTransactionCall ''doc1''])
   \<and> stack_contents (redoStack with_history) defaultScope = [change_c]"
proof -
  let ?options = "\<lparr>opt_description = Some ''nothing'', opt_scope = None,
                    dependencies = Some [''doc1'']\<rparr>"
  have c: "map_endTransaction (recording_api [] []) ?options
             (endTransaction_handleEntries (dependencies ?options) with_history) []
           = (Inr [None], [EndTransactionCall ''doc1''])"
    by (simp add: endTransaction_handleEntries_def with_history_def recording_api_def map_get_def)
  have n: "\<forall>r \<in> set [None :: DocumentId option]. r = None"
    by simp
  have g: "snd (getStacks (resolve_scope ?options) with_history) = with_history"
    by (simp add: resolve_scope_def getStacks_regular [OF inherited_defaultScope]
          stack_contents_def with_history_def)
  from endTransaction_without_change [of "recording_api [] []" ?options with_history "[]"
      "[None]" "[EndTransactionCall ''doc1'']"] c n
  show ?thesis
    unfolding g by (simp add: stack_contents_def with_history_def)
qed

text \<open>
  Claim C4. In a manager state satisfying the invariant, for distinct scope keys \<open>A\<close>
  and \<open>B\<close>: an \<open>endTransaction\<close> whose resolved scope is \<open>A\<close>, an \<open>undo A\<close> and a
  \<open>redo A\<close> leave the undo stack and the redo stack of \<open>B\<close> as they were (the same own
  property of each object, hence the same contents), whatever the operation returns or
  throws.
\<close>

theorem scope_isolation:
  assumes "manager_inv m" and "A \<noteq> B"
  shows "(resolve_scope options = A \<longrightarrow>
            undoStack (fst (snd (endTransaction api options m w))) B = undoStack m B \<and>
            redoStack (fst (snd (endTransaction api options m w))) B = redoStack m B) \<and>
         undoStack (fst (snd (undo api A m w))) B = undoStack m B \<and>
         redoStack (fst (snd (undo api A m w))) B = redoStack m B \<and>
         undoStack (fst (snd (redo api A m w))) B = undoStack m B \<and>
         redoStack (fst (snd (redo api A m w))) B = redoStack m B"
proof -
  note ne = assms(2)
  obtain u v m1 where g: "getStacks A m = ((u, v), m1)"
    by (metis prod.exhaust)
  from ne have f: "undoStack m1 B = undoStack m B" "redoStack m1 B = redoStack m B"
    using getStacks_frame [of B A m] g by simp_all
  have e: "undoStack (fst (snd (endTransaction api options m w))) B = undoStack m B \<and>
           redoStack (fst (snd (endTransaction api options m w))) B = redoStack m B"
    if "resolve_scope options = A"
    using that ne g f
    by (auto simp: endTransaction_def Let_def split: prod.splits sum.splits js_value.splits)
  have u: "undoStack (fst (snd (undo api A m w))) B = undoStack m B \<and>
           redoStack (fst (snd (undo api A m w))) B = redoStack m B"
    using ne g f
    by (auto simp: undo_def Let_def split: prod.splits option.splits js_value.splits)
  have r: "undoStack (fst (snd (redo api A m w))) B = undoStack m B \<and>
           redoStack (fst (snd (redo api A m w))) B = redoStack m B"
    using ne g f
    by (auto simp: redo_def Let_def split: prod.splits option.splits js_value.splits)
  from e u r show ?thesis
    by blast
qed

theorem scope_isolation_witness:
  "StrKey ''panelA'' \<noteq> defaultScope
   \<and> fst (endTransaction (recording_api [''doc1''] [])
        \<lparr>opt_description = Some ''panel edit'', opt_scope = Some (StrKey ''panelA''),
         dependencies = None\<rparr> with_history [])
     = Inr (Some \<lparr>description = Some ''panel edit'', ids = [''doc1''],
                  scope = StrKey ''panelA''\<rparr>)
   \<and> undoStack (fst (snd (endTransaction (recording_api [''doc1''] [])
        \<lparr>opt_description = Some ''panel edit'', opt_scope = Some (StrKey ''panelA''),
         dependencies = None\<rparr> with_history []))) defaultScope
     = Some [change_a, change_b]
   \<and> redoStack (fst (snd (endTransaction (recording_api [''doc1''] [])
        \<lparr>opt_description = Some ''panel edit'', opt_scope = Some (StrKey ''panelA''),
         dependencies = None\<rparr> with_history []))) defaultScope
     = Some [change_c]
   \<and> undoStack (fst (snd (undo (recording_api [''doc1''] []) (StrKey ''panelA'')
        with_history []))) defaultScope = Some [change_a, change_b]
   \<and> redoStack (fst (snd (redo (recording_api [''doc1''] []) (StrKey ''panelA'')
        with_history []))) defaultScope = Some [change_c]"
proof -
  let ?options = "\<lparr>opt_description = Some ''panel edit'', opt_scope = Some (StrKey ''panelA''),
                    dependencies = None\<rparr>"
  have ne: "StrKey ''panelA'' \<noteq> defaultScope"
    by (simp add: defaultScope_def)
  have sc: "resolve_scope ?options = StrKey ''panelA''"
    by (simp add: resolve_scope_def)
  have reg: "inherited (resolve_scope ?options) = None"
    by (simp add: sc inherited_def Object_prototype_def)
  have c: "map_endTransaction (recording_api [''doc1''] []) ?options
             (endTransaction_handleEntries (dependencies ?options) with_history) []
           = (Inr [Some ''doc1'', None], [EndTransactionCall ''doc1'', EndTransactionCall ''doc2''])"
    by (simp add: endTransaction_handleEntries_def with_history_def recording_api_def)
  have e: "fst (endTransaction (recording_api [''doc1''] []) ?options with_history [])
           = Inr (Some \<lparr>description = Some ''panel edit'', ids = [''doc1''],
                        scope = StrKey ''panelA''\<rparr>)"
    using endTransaction_records [OF reg c] by (simp add: sc)
  have h: "undoStack with_history defaultScope = Some [change_a, change_b]"
    "redoStack with_history defaultScope = Some [change_c]"
    by (simp_all add: with_history_def)
  from scope_isolation [OF with_history_inv ne, of ?options "recording_api [''doc1''] []" "[]"] sc
  show ?thesis
    by (simp add: ne e h)
qed

subsection \<open>The handles an operation addresses\<close>









subsection \<open>The queries\<close>

lemma undos_redos_descriptions:
  assumes "inherited sc = None"
  shows "undos sc m = (Inr (map description (stack_contents (undoStack m) sc)), snd (getStacks sc m))"
    and "redos sc m = (Inr (map description (stack_contents (redoStack m) sc)), snd (getStacks sc m))"
  by (simp_all add: undos_def redos_def map_description_def getStacks_regular [OF assms])

lemma undos_redos_inherited:
  assumes "manager_inv m" and "inherited sc = Some len"
  shows "undos sc m = (Inl TypeError, m)"
    and "redos sc m = (Inl TypeError, m)"
  using assms
  by (simp_all add: undos_def redos_def map_description_def manager_inv_iff getStacks_inherited)

text \<open>
  Claim C8 does not hold of the code under a scope named like a member of
  \<^verbatim>\<open>Object.prototype\<close>. In a new manager the scope \<^verbatim>\<open>"toString"\<close> has no history,
  and \<^verbatim>\<open>undos("toString")\<close> and \<^verbatim>\<open>redos("toString")\<close> should return the empty list.
  They throw a \<^verbatim>\<open>TypeError\<close>: what \<^verbatim>\<open>getStacks\<close> returns is
  \<^verbatim>\<open>Object.prototype.toString\<close>, which has no \<^verbatim>\<open>map\<close> method (in general: lemma
  \<open>undos_redos_inherited\<close>). Under any scope that is not a key of
  \<^verbatim>\<open>Object.prototype\<close> the descriptions are returned in stored order, oldest first
  (lemma \<open>undos_redos_descriptions\<close>).
\<close>

theorem undos_redos_prototype_scope_throws:
  "stack_contents (undoStack (new_manager :: DocumentId manager)) (StrKey ''toString'') = []
   \<and> stack_contents (redoStack (new_manager :: DocumentId manager)) (StrKey ''toString'') = []
   \<and> undos (StrKey ''toString'') (new_manager :: DocumentId manager) = (Inl TypeError, new_manager)
   \<and> redos (StrKey ''toString'') (new_manager :: DocumentId manager) = (Inl TypeError, new_manager)"
proof -
  have g: "getStacks (StrKey ''toString'') (new_manager :: DocumentId manager)
             = ((Proto (Some 0), Proto (Some 0)), new_manager)"
    by (rule getStacks_inherited [OF inherited_toString])
       (simp_all add: new_manager_def defaultScope_def)
  show ?thesis
    by (simp add: undos_def redos_def g map_description_def)
       (simp add: stack_contents_def new_manager_def defaultScope_def)
qed

lemma getStacks_repeated:
  "((\<lambda>x. snd (getStacks sc x)) ^^ Suc n) m = snd (getStacks sc m)"
proof (induction n)
  case 0
  then show ?case by simp
next
  case (Suc n)
  have "((\<lambda>x. snd (getStacks sc x)) ^^ Suc (Suc n)) m
          = snd (getStacks sc (((\<lambda>x. snd (getStacks sc x)) ^^ Suc n) m))"
    by simp
  also have "\<dots> = snd (getStacks sc (snd (getStacks sc m)))"
    by (simp only: Suc.IH)
  also have "\<dots> = snd (getStacks sc m)"
    by (simp add: getStacks_idem)
  finally show ?case .
qed

lemma query_snd:
  "snd (undos sc m) = snd (getStacks sc m)"
  "snd (redos sc m) = snd (getStacks sc m)"
  "snd (canUndo sc m) = snd (getStacks sc m)"
  "snd (canRedo sc m) = snd (getStacks sc m)"
  by (simp_all add: undos_def redos_def canUndo_def canRedo_def split: prod.splits)

lemma query_after_getStacks:
  "undos sc (snd (getStacks sc m)) = undos sc m"
  "redos sc (snd (getStacks sc m)) = redos sc m"
  "canUndo sc (snd (getStacks sc m)) = canUndo sc m"
  "canRedo sc (snd (getStacks sc m)) = canRedo sc m"
  by (simp_all add: undos_def redos_def canUndo_def canRedo_def getStacks_idem)

lemma query_repeated:
  assumes "\<And>x. snd (q x) = snd (getStacks sc x)"
    and "q (snd (getStacks sc m)) = q m"
  shows "q (((\<lambda>x. snd (q x)) ^^ n) m) = q m"
proof (cases n)
  case 0
  then show ?thesis by simp
next
  case (Suc k)
  have "(\<lambda>x. snd (q x)) = (\<lambda>x. snd (getStacks sc x))"
    using assms(1) by auto
  then show ?thesis
    using assms(2) by (simp only: Suc getStacks_repeated)
qed

text \<open>
  Claim C9. Each of \<open>undos\<close>, \<open>redos\<close>, \<open>canUndo\<close> and \<open>canRedo\<close> leaves the contents
  of the undo stack and of the redo stack of every scope as they were, and after any number
  \<open>n\<close> of calls of one of them, with nothing in between, the next call has the same
  outcome as the first (the same value, or the same exception) and leaves the same manager.
\<close>

theorem queries_idempotent:
  "(stack_contents (undoStack (snd (undos sc m))) k = stack_contents (undoStack m) k
    \<and> stack_contents (redoStack (snd (undos sc m))) k = stack_contents (redoStack m) k
    \<and> stack_contents (undoStack (snd (redos sc m))) k = stack_contents (undoStack m) k
    \<and> stack_contents (redoStack (snd (redos sc m))) k = stack_contents (redoStack m) k
    \<and> stack_contents (undoStack (snd (canUndo sc m))) k = stack_contents (undoStack m) k
    \<and> stack_contents (redoStack (snd (canUndo sc m))) k = stack_contents (redoStack m) k
    \<and> stack_contents (undoStack (snd (canRedo sc m))) k = stack_contents (undoStack m) k
    \<and> stack_contents (redoStack (snd (canRedo sc m))) k = stack_contents (redoStack m) k)
   \<and> undos sc (((\<lambda>x. snd (undos sc x)) ^^ n) m) = undos sc m
   \<and> redos sc (((\<lambda>x. snd (redos sc x)) ^^ n) m) = redos sc m
   \<and> canUndo sc (((\<lambda>x. snd (canUndo sc x)) ^^ n) m) = canUndo sc m
   \<and> canRedo sc (((\<lambda>x. snd (canRedo sc x)) ^^ n) m) = canRedo sc m"
proof -
  have "undos sc (((\<lambda>x. snd (undos sc x)) ^^ n) m) = undos sc m"
    by (rule query_repeated [of "undos sc" sc]) (simp_all add: query_snd query_after_getStacks)
  moreover have "redos sc (((\<lambda>x. snd (redos sc x)) ^^ n) m) = redos sc m"
    by (rule query_repeated [of "redos sc" sc]) (simp_all add: query_snd query_after_getStacks)
  moreover have "canUndo sc (((\<lambda>x. snd (canUndo sc x)) ^^ n) m) = canUndo sc m"
    by (rule query_repeated [of "canUndo sc" sc]) (simp_all add: query_snd query_after_getStacks)
  moreover have "canRedo sc (((\<lambda>x. snd (canRedo sc x)) ^^ n) m) = canRedo sc m"
    by (rule query_repeated [of "canRedo sc" sc]) (simp_all add: query_snd query_after_getStacks)
  ultimately show ?thesis
    by (simp add: query_snd getStacks_contents)
qed

subsection \<open>The scenarios of the specification\<close>

text \<open>
  The four scenarios of the specification's testable properties, run on the model with
  the recording handles.
\<close>

lemmas run_defs =
  endTransaction_def undo_def redo_def undos_def redos_def canUndo_def canRedo_def
  startTransaction_def startTransaction_handles_def endTransaction_handleEntries_def
  getStacks_def js_get_def falsy_def inherited_def Object_prototype_def resolve_scope_def
  pop_def map_get_def map_description_def length_gt_0_def in_scope_def Let_def
  defaultScope_def recording_api_def two_docs_def

lemma scenario_1:
  "endTransaction (recording_api [''doc1'', ''doc2''] [])
     \<lparr>opt_description = Some ''edit both'', opt_scope = None, dependencies = None\<rparr>
     two_docs []
   = (Inr (Some \<lparr>description = Some ''edit both'', ids = [''doc1'', ''doc2''],
                 scope = defaultScope\<rparr>),
      two_docs\<lparr>undoStack :=
        [defaultScope \<mapsto> [\<lparr>description = Some ''edit both'', ids = [''doc1'', ''doc2'']\<rparr>]]\<rparr>,
      [EndTransactionCall ''doc1'', EndTransactionCall ''doc2''])"
  "fst (canUndo defaultScope (two_docs\<lparr>undoStack :=
        [defaultScope \<mapsto> [\<lparr>description = Some ''edit both'', ids = [''doc1'', ''doc2'']\<rparr>]]\<rparr>))
   = Inr True"
  by (simp_all add: run_defs)

lemma scenario_2:
  "undo (recording_api [] []) defaultScope
     (two_docs\<lparr>undoStack :=
        [defaultScope \<mapsto> [\<lparr>description = Some ''edit both'', ids = [''doc1'', ''doc2'']\<rparr>]]\<rparr>) []
   = (Inr (Some \<lparr>description = Some ''edit both'', ids = [''doc1'', ''doc2''],
                 scope = defaultScope\<rparr>),
      two_docs\<lparr>redoStack :=
        [defaultScope \<mapsto> [\<lparr>description = Some ''edit both'', ids = [''doc1'', ''doc2'']\<rparr>]]\<rparr>,
      [UndoCall ''doc1'' defaultScope, UndoCall ''doc2'' defaultScope])"
  "fst (canRedo defaultScope (two_docs\<lparr>redoStack :=
        [defaultScope \<mapsto> [\<lparr>description = Some ''edit both'', ids = [''doc1'', ''doc2'']\<rparr>]]\<rparr>))
   = Inr True"
  "fst (canUndo defaultScope (two_docs\<lparr>redoStack :=
        [defaultScope \<mapsto> [\<lparr>description = Some ''edit both'', ids = [''doc1'', ''doc2'']\<rparr>]]\<rparr>))
   = Inr False"
  by (simp_all add: run_defs)

lemma scenario_3:
  "startTransaction (recording_api [] []) (Some [''doc1'']) two_docs []
   = (None, [StartTransactionCall ''doc1''])"
  "endTransaction (recording_api [] [])
     \<lparr>opt_description = None, opt_scope = Some (StrKey ''panelA''), dependencies = None\<rparr>
     two_docs [StartTransactionCall ''doc1'']
   = (Inr None,
      two_docs\<lparr>undoStack := [defaultScope \<mapsto> [], StrKey ''panelA'' \<mapsto> []],
                redoStack := [defaultScope \<mapsto> [], StrKey ''panelA'' \<mapsto> []]\<rparr>,
      [StartTransactionCall ''doc1'', EndTransactionCall ''doc1'', EndTransactionCall ''doc2''])"
  "fst (undos (StrKey ''panelA'')
     (two_docs\<lparr>undoStack := [defaultScope \<mapsto> [], StrKey ''panelA'' \<mapsto> []],
                redoStack := [defaultScope \<mapsto> [], StrKey ''panelA'' \<mapsto> []]\<rparr>))
   = Inr []"
  by (simp_all add: run_defs)

lemma scenario_4:
  "endTransaction (recording_api [''doc1''] [])
     \<lparr>opt_description = Some ''a'', opt_scope = None, dependencies = None\<rparr> two_docs []
   = (Inr (Some \<lparr>description = Some ''a'', ids = [''doc1''], scope = defaultScope\<rparr>),
      two_docs\<lparr>undoStack := [defaultScope \<mapsto> [\<lparr>description = Some ''a'', ids = [''doc1'']\<rparr>]]\<rparr>,
      [EndTransactionCall ''doc1'', EndTransactionCall ''doc2''])"
  "endTransaction (recording_api [''doc2''] [])
     \<lparr>opt_description = Some ''b'', opt_scope = None, dependencies = None\<rparr>
     (two_docs\<lparr>undoStack := [defaultScope \<mapsto> [\<lparr>description = Some ''a'', ids = [''doc1'']\<rparr>]]\<rparr>) []
   = (Inr (Some \<lparr>description = Some ''b'', ids = [''doc2''], scope = defaultScope\<rparr>),
      two_docs\<lparr>undoStack := [defaultScope \<mapsto> [\<lparr>description = Some ''a'', ids = [''doc1'']\<rparr>,
                                               \<lparr>description = Some ''b'', ids = [''doc2'']\<rparr>]]\<rparr>,
      [EndTransactionCall ''doc1'', EndTransactionCall ''doc2''])"
  "fst (undos defaultScope
     (two_docs\<lparr>undoStack := [defaultScope \<mapsto> [\<lparr>description = Some ''a'', ids = [''doc1'']\<rparr>,
                                               \<lparr>description = Some ''b'', ids = [''doc2'']\<rparr>]]\<rparr>))
   = Inr [Some ''a'', Some ''b'']"
  "undo (recording_api [] []) defaultScope
     (two_docs\<lparr>undoStack := [defaultScope \<mapsto> [\<lparr>description = Some ''a'', ids = [''doc1'']\<rparr>,
                                               \<lparr>description = Some ''b'', ids = [''doc2'']\<rparr>]]\<rparr>) []
   = (Inr (Some \<lparr>description = Some ''b'', ids = [''doc2''], scope = defaultScope\<rparr>),
      two_docs\<lparr>undoStack := [defaultScope \<mapsto> [\<lparr>description = Some ''a'', ids = [''doc1'']\<rparr>]],
                redoStack := [defaultScope \<mapsto> [\<lparr>description = Some ''b'', ids = [''doc2'']\<rparr>]]\<rparr>,
      [UndoCall ''doc2'' defaultScope])"
  "fst (undos defaultScope
     (two_docs\<lparr>undoStack := [defaultScope \<mapsto> [\<lparr>description = Some ''a'', ids = [''doc1'']\<rparr>]],
                redoStack := [defaultScope \<mapsto> [\<lparr>description = Some ''b'', ids = [''doc2'']\<rparr>]]\<rparr>))
   = Inr [Some ''a'']"
  "fst (redos defaultScope
     (two_docs\<lparr>undoStack := [defaultScope \<mapsto> [\<lparr>description = Some ''a'', ids = [''doc1'']\<rparr>]],
                redoStack := [defaultScope \<mapsto> [\<lparr>description = Some ''b'', ids = [''doc2'']\<rparr>]]\<rparr>))
   = Inr [Some ''b'']"
  by (simp_all add: run_defs)

end
